theory Spec2Isabelle
  imports Complex_Main "HOL-Library.Sublist"
begin

section \<open>JavaScript numbers\<close>

text \<open>
  The layout of \<^verbatim>\<open>src/utils/bannerGenerator.ts\<close> computes with JavaScript numbers: IEEE 754
  double precision with round to nearest, ties to even. A number is NaN, an infinity, the
  negative zero, or \<open>Fin q\<close> for a rational \<open>q\<close> that a double represents; \<open>Fin 0\<close> is the
  positive zero. Every operation on finite operands computes the exact rational result and
  rounds it once with \<open>round_double\<close>, as IEEE 754 prescribes, so the operations lead from
  doubles to doubles. A literal or an input that is written in decimal, such as \<^verbatim>\<open>2.54\<close>,
  stands for \<open>round_double\<close> of it.
\<close>

datatype number = NaN | PosInf | NegInf | NegZero | Fin rat

text \<open>The number of binary digits of a positive integer.\<close>

function bit_length :: "int \<Rightarrow> int" where
  "bit_length n = (if n \<le> 0 then 0 else 1 + bit_length (n div 2))"
  by pat_completeness auto
termination
  by (relation "measure nat") auto

declare bit_length.simps [simp del]

text \<open>\<open>2 ^ e\<close> for an integer exponent, by repeated squaring.\<close>

function pow2 :: "int \<Rightarrow> rat" where
  "pow2 e =
     (if e = 0 then 1
      else if e < 0 then 1 / pow2 (- e)
      else if even e then pow2 (e div 2) * pow2 (e div 2)
      else 2 * (pow2 (e div 2) * pow2 (e div 2)))"
  by pat_completeness auto
termination
  by (relation "measure (\<lambda>e. if e < 0 then nat (1 - 2 * e) else nat (2 * e))") auto

declare pow2.simps [simp del]

text \<open>For \<open>a > 0\<close>: the exponent \<open>e\<close> with \<open>2 ^ e \<le> a < 2 ^ (e + 1)\<close>. The difference of the
  bit lengths of numerator and denominator is \<open>e\<close> or \<open>e + 1\<close>.\<close>

definition floor_log2 :: "rat \<Rightarrow> int" where
  "floor_log2 a =
     (let (p, q) = quotient_of a;
          d = bit_length p - bit_length q
      in if pow2 d \<le> a then d else d - 1)"

definition round_half_even :: "rat \<Rightarrow> int" where
  "round_half_even q =
     (let f = \<lfloor>q\<rfloor>; r = q - of_int f
      in if r < 1 / 2 then f else if 1 / 2 < r then f + 1 else if even f then f else f + 1)"

text \<open>
  Rounding of an exact result to the nearest double. The significand has 53 bits, so the
  unit in the last place is \<open>2 ^ (e - 52)\<close>, and \<open>2 ^ (- 1074)\<close> below the normal range
  (\<open>e < - 1022\<close>). A result that rounds to \<open>2 ^ 1024\<close> or more is an infinity; a result that
  rounds to zero keeps its sign.
\<close>

definition round_double :: "rat \<Rightarrow> number" where
  "round_double x =
     (if x = 0 then Fin 0
      else
        (let a = \<bar>x\<bar>;
             e = floor_log2 a;
             u = pow2 (max e (- 1022) - 52);
             n = round_half_even (a / u);
             m = of_int n * u
         in if 1023 < e \<or> (e = 1023 \<and> n = 9007199254740992)
            then (if x < 0 then NegInf else PosInf)
            else if n = 0 then (if x < 0 then NegZero else Fin 0)
            else Fin (if x < 0 then - m else m)))"

fun negative :: "number \<Rightarrow> bool" where
  "negative NegInf = True"
| "negative NegZero = True"
| "negative (Fin q) = (q < 0)"
| "negative PosInf = False"
| "negative NaN = False"

fun is_inf :: "number \<Rightarrow> bool" where
  "is_inf PosInf = True"
| "is_inf NegInf = True"
| "is_inf NegZero = False"
| "is_inf (Fin q) = False"
| "is_inf NaN = False"

fun is_zero :: "number \<Rightarrow> bool" where
  "is_zero NegZero = True"
| "is_zero (Fin q) = (q = 0)"
| "is_zero PosInf = False"
| "is_zero NegInf = False"
| "is_zero NaN = False"

text \<open>A finite number: a zero or a non-zero double.\<close>

fun is_finite :: "number \<Rightarrow> bool" where
  "is_finite NegZero = True"
| "is_finite (Fin q) = True"
| "is_finite PosInf = False"
| "is_finite NegInf = False"
| "is_finite NaN = False"

text \<open>The rational value of a finite number.\<close>

fun rat_of :: "number \<Rightarrow> rat" where
  "rat_of (Fin q) = q"
| "rat_of NegZero = 0"
| "rat_of PosInf = 0"
| "rat_of NegInf = 0"
| "rat_of NaN = 0"

definition signed_inf :: "bool \<Rightarrow> number" where
  "signed_inf s = (if s then NegInf else PosInf)"

definition signed_zero :: "bool \<Rightarrow> number" where
  "signed_zero s = (if s then NegZero else Fin 0)"

text \<open>Unary minus.\<close>

fun js_neg :: "number \<Rightarrow> number" where
  "js_neg NaN = NaN"
| "js_neg PosInf = NegInf"
| "js_neg NegInf = PosInf"
| "js_neg NegZero = Fin 0"
| "js_neg (Fin q) = (if q = 0 then NegZero else Fin (- q))"

text \<open>\<^verbatim>\<open>a + b\<close>: infinities of opposite sign give NaN; the sum of two negative zeros is the
  negative zero, every other exact sum of zero is the positive zero.\<close>

definition js_add :: "number \<Rightarrow> number \<Rightarrow> number" where
  "js_add a b =
     (if a = NaN \<or> b = NaN then NaN
      else if is_inf a then (if is_inf b \<and> a \<noteq> b then NaN else a)
      else if is_inf b then b
      else if a = NegZero \<and> b = NegZero then NegZero
      else round_double (rat_of a + rat_of b))"

text \<open>\<^verbatim>\<open>a - b\<close> is \<^verbatim>\<open>a + (-b)\<close>.\<close>

definition js_sub :: "number \<Rightarrow> number \<Rightarrow> number" where
  "js_sub a b = js_add a (js_neg b)"

text \<open>\<^verbatim>\<open>a * b\<close>: zero times infinity is NaN; the sign of the result is the exclusive or of the
  signs.\<close>

definition js_mul :: "number \<Rightarrow> number \<Rightarrow> number" where
  "js_mul a b =
     (if a = NaN \<or> b = NaN then NaN
      else if (is_zero a \<and> is_inf b) \<or> (is_inf a \<and> is_zero b) then NaN
      else if is_inf a \<or> is_inf b then signed_inf (negative a \<noteq> negative b)
      else if is_zero a \<or> is_zero b then signed_zero (negative a \<noteq> negative b)
      else round_double (rat_of a * rat_of b))"

text \<open>\<^verbatim>\<open>a / b\<close>: zero by zero and infinity by infinity are NaN; a division by a zero gives an
  infinity, a division by an infinity a zero.\<close>

definition js_div :: "number \<Rightarrow> number \<Rightarrow> number" where
  "js_div a b =
     (if a = NaN \<or> b = NaN then NaN
      else if (is_zero a \<and> is_zero b) \<or> (is_inf a \<and> is_inf b) then NaN
      else if is_inf a \<or> is_zero b then signed_inf (negative a \<noteq> negative b)
      else if is_inf b \<or> is_zero a then signed_zero (negative a \<noteq> negative b)
      else round_double (rat_of a / rat_of b))"

text \<open>The position of a number that is not NaN in the order: the infinities lie below and
  above all finite numbers, and both zeros have the value \<open>0\<close>.\<close>

fun ord_of :: "number \<Rightarrow> int \<times> rat" where
  "ord_of NegInf = (- 1, 0)"
| "ord_of PosInf = (1, 0)"
| "ord_of NegZero = (0, 0)"
| "ord_of (Fin q) = (0, q)"
| "ord_of NaN = (0, 0)"

text \<open>\<^verbatim>\<open>a <= b\<close>, \<^verbatim>\<open>a < b\<close> and \<^verbatim>\<open>a === b\<close>: false when an operand is NaN.\<close>

definition js_le :: "number \<Rightarrow> number \<Rightarrow> bool" where
  "js_le a b \<longleftrightarrow> a \<noteq> NaN \<and> b \<noteq> NaN
     \<and> (fst (ord_of a) < fst (ord_of b)
        \<or> (fst (ord_of a) = fst (ord_of b) \<and> snd (ord_of a) \<le> snd (ord_of b)))"

definition js_lt :: "number \<Rightarrow> number \<Rightarrow> bool" where
  "js_lt a b \<longleftrightarrow> a \<noteq> NaN \<and> b \<noteq> NaN
     \<and> (fst (ord_of a) < fst (ord_of b)
        \<or> (fst (ord_of a) = fst (ord_of b) \<and> snd (ord_of a) < snd (ord_of b)))"

definition js_eq :: "number \<Rightarrow> number \<Rightarrow> bool" where
  "js_eq a b \<longleftrightarrow> a \<noteq> NaN \<and> b \<noteq> NaN \<and> ord_of a = ord_of b"

text \<open>\<^verbatim>\<open>Math.min\<close> and \<^verbatim>\<open>Math.max\<close> of two numbers: NaN when an argument is NaN; the negative
  zero counts as smaller than the positive zero.\<close>

definition js_min2 :: "number \<Rightarrow> number \<Rightarrow> number" where
  "js_min2 a b =
     (if a = NaN \<or> b = NaN then NaN
      else if js_lt a b then a else if js_lt b a then b
      else if a = NegZero then a else b)"

definition js_max2 :: "number \<Rightarrow> number \<Rightarrow> number" where
  "js_max2 a b =
     (if a = NaN \<or> b = NaN then NaN
      else if js_lt a b then b else if js_lt b a then a
      else if a = NegZero then b else a)"

text \<open>\<^verbatim>\<open>Math.floor\<close>, and \<^verbatim>\<open>Math.round\<close>, which rounds to the nearest integer, a half towards
  \<open>+\<infinity>\<close>; both are exact and keep the sign of a zero result.\<close>

fun js_floor :: "number \<Rightarrow> number" where
  "js_floor (Fin q) = Fin (of_int \<lfloor>q\<rfloor>)"
| "js_floor NegZero = NegZero"
| "js_floor PosInf = PosInf"
| "js_floor NegInf = NegInf"
| "js_floor NaN = NaN"

fun js_round :: "number \<Rightarrow> number" where
  "js_round (Fin q) = (if q < 0 \<and> \<lfloor>q + 1 / 2\<rfloor> = 0 then NegZero else Fin (of_int \<lfloor>q + 1 / 2\<rfloor>))"
| "js_round NegZero = NegZero"
| "js_round PosInf = PosInf"
| "js_round NegInf = NegInf"
| "js_round NaN = NaN"

text \<open>\<^verbatim>\<open>new Array(n)\<close> throws a RangeError unless \<open>n\<close> is an integer from \<open>0\<close> to \<open>2 ^ 32 - 1\<close>:
  \<open>None\<close> is the throw.\<close>

fun array_length :: "number \<Rightarrow> nat option" where
  "array_length (Fin q) =
     (if 0 \<le> q \<and> q < 4294967296 \<and> of_int \<lfloor>q\<rfloor> = q then Some (nat \<lfloor>q\<rfloor>) else None)"
| "array_length NegZero = Some 0"
| "array_length PosInf = None"
| "array_length NegInf = None"
| "array_length NaN = None"

section \<open>Two arithmetics\<close>

text \<open>
  The operations the layout uses. \<open>double\<close> is the arithmetic of the program. \<open>exact\<close>
  computes in the rationals without rounding: the arithmetic that statements "in exact
  arithmetic" are about.
\<close>

record 'n arith =
  a_add :: "'n \<Rightarrow> 'n \<Rightarrow> 'n"
  a_sub :: "'n \<Rightarrow> 'n \<Rightarrow> 'n"
  a_mul :: "'n \<Rightarrow> 'n \<Rightarrow> 'n"
  a_div :: "'n \<Rightarrow> 'n \<Rightarrow> 'n"
  a_le :: "'n \<Rightarrow> 'n \<Rightarrow> bool"
  a_eq :: "'n \<Rightarrow> 'n \<Rightarrow> bool"
  a_min :: "'n \<Rightarrow> 'n \<Rightarrow> 'n"
  a_of_nat :: "nat \<Rightarrow> 'n"

definition double :: "number arith" where
  "double = \<lparr>a_add = js_add, a_sub = js_sub, a_mul = js_mul, a_div = js_div,
             a_le = js_le, a_eq = js_eq, a_min = js_min2,
             a_of_nat = (\<lambda>n. round_double (of_nat n))\<rparr>"

definition exact :: "rat arith" where
  "exact = \<lparr>a_add = (+), a_sub = (-), a_mul = (*), a_div = (/),
            a_le = (\<le>), a_eq = (=), a_min = min, a_of_nat = of_nat\<rparr>"

section \<open>Data model\<close>

text \<open>\<^verbatim>\<open>ProcessedImage\<close> (types): only \<^verbatim>\<open>id\<close> and \<^verbatim>\<open>originalDimensions\<close> are read by the
  layout; the data URLs and file sizes are left out. The type parameter is the type of
  numbers.\<close>

record 'n Dimensions =
  dim_width :: 'n
  dim_height :: 'n

record 'n ProcessedImage =
  image_id :: string
  originalDimensions :: "'n Dimensions"

text \<open>\<^verbatim>\<open>interface MasonryItem { image; x; y; width; height }\<close>\<close>

record 'n MasonryItem =
  item_image :: "'n ProcessedImage"
  item_x :: 'n
  item_y :: 'n
  item_width :: 'n
  item_height :: 'n

text \<open>\<^verbatim>\<open>PrintConfig\<close>: \<^verbatim>\<open>unit: 'px' | 'in' | 'cm'\<close>.\<close>

datatype SizeUnit = Px | In | Cm

record PrintConfig =
  cfg_width :: number
  cfg_height :: number
  cfg_unit :: SizeUnit
  cfg_dpi :: number
  cfg_quality :: number

section \<open>The layout: \<^verbatim>\<open>calculateMasonryLayout\<close>\<close>

text \<open>
  The functions of the layout take the arithmetic as their first argument. The column count
  is a natural number: a valid array length, see \<open>array_length\<close> and \<open>generateBanner\<close>.

  Line 22: \<^verbatim>\<open>(bannerWidth - gap * (columns + 1)) / columns\<close>.
\<close>

definition columnWidth :: "'n arith \<Rightarrow> 'n \<Rightarrow> nat \<Rightarrow> 'n \<Rightarrow> 'n" where
  "columnWidth A bannerWidth columns gap =
     a_div A
       (a_sub A bannerWidth (a_mul A gap (a_add A (a_of_nat A columns) (a_of_nat A 1))))
       (a_of_nat A columns)"

text \<open>\<^verbatim>\<open>Math.min(...columnHeights)\<close>: with no argument the result is \<^verbatim>\<open>Infinity\<close>, which an
  empty array does not hold: \<open>None\<close>.\<close>

fun math_min :: "'n arith \<Rightarrow> 'n list \<Rightarrow> 'n option" where
  "math_min A [] = None"
| "math_min A (h # hs) = Some (fold (\<lambda>x m. a_min A m x) hs h)"

text \<open>\<^verbatim>\<open>Array.prototype.indexOf\<close>: the first index whose element is strictly equal to the
  value; \<open>None\<close> is JavaScript's \<^verbatim>\<open>-1\<close>.\<close>

fun indexOf :: "'n arith \<Rightarrow> 'n list \<Rightarrow> 'n \<Rightarrow> nat option" where
  "indexOf A [] v = None"
| "indexOf A (h # hs) v = (if a_eq A h v then Some 0 else map_option Suc (indexOf A hs v))"

text \<open>Line 28: \<^verbatim>\<open>columnHeights.indexOf(Math.min(...columnHeights))\<close>.\<close>

definition shortestColumnIndex :: "'n arith \<Rightarrow> 'n list \<Rightarrow> nat option" where
  "shortestColumnIndex A columnHeights =
     (case math_min A columnHeights of None \<Rightarrow> None | Some m \<Rightarrow> indexOf A columnHeights m)"

text \<open>The two variables the loop mutates.\<close>

record 'n layout_state =
  columnHeights :: "'n list"
  items :: "'n MasonryItem list"

text \<open>Lines 31-33: the placed height of an image in a column of the given width.\<close>

definition itemHeightOf :: "'n arith \<Rightarrow> 'n \<Rightarrow> 'n ProcessedImage \<Rightarrow> 'n" where
  "itemHeightOf A colWidth img =
     (let aspectRatio =
            a_div A (dim_width (originalDimensions img)) (dim_height (originalDimensions img));
          itemWidth = colWidth
      in a_div A itemWidth aspectRatio)"

text \<open>
  Lines 27-51, one iteration of \<^verbatim>\<open>for (const image of images)\<close>. When \<^verbatim>\<open>indexOf\<close> finds
  nothing (no column, or a NaN among the heights) the index is \<^verbatim>\<open>-1\<close>, \<^verbatim>\<open>y\<close> is
  \<^verbatim>\<open>undefined\<close>, the sum of line 40 is NaN, the comparison is false and nothing changes.
\<close>

definition loop_body :: "'n arith \<Rightarrow> 'n \<Rightarrow> 'n \<Rightarrow> 'n \<Rightarrow> 'n layout_state \<Rightarrow> 'n ProcessedImage \<Rightarrow> 'n layout_state" where
  "loop_body A colWidth bannerHeight gap st img =
     (case shortestColumnIndex A (columnHeights st) of
        None \<Rightarrow> st
      | Some shortest \<Rightarrow>
          (let itemWidth = colWidth;
               itemHeight = itemHeightOf A colWidth img;
               x = a_add A gap (a_mul A (a_of_nat A shortest) (a_add A colWidth gap));
               y = columnHeights st ! shortest
           in if a_le A (a_add A y itemHeight) (a_sub A bannerHeight gap)
              then \<lparr>columnHeights =
                      (columnHeights st)[shortest := a_add A (a_add A y itemHeight) gap],
                    items = items st @
                      [\<lparr>item_image = img, item_x = x, item_y = y,
                        item_width = itemWidth, item_height = itemHeight\<rparr>]\<rparr>
              else st))"

fun layout_loop :: "'n arith \<Rightarrow> 'n \<Rightarrow> 'n \<Rightarrow> 'n \<Rightarrow> 'n ProcessedImage list \<Rightarrow> 'n layout_state \<Rightarrow> 'n layout_state" where
  "layout_loop A colWidth bannerHeight gap [] st = st"
| "layout_loop A colWidth bannerHeight gap (img # images) st =
     layout_loop A colWidth bannerHeight gap images (loop_body A colWidth bannerHeight gap st img)"

text \<open>Lines 22-24 and the loop: the state when the loop has consumed \<open>images\<close>.\<close>

definition layoutState :: "'n arith \<Rightarrow> 'n ProcessedImage list \<Rightarrow> 'n \<Rightarrow> 'n \<Rightarrow> nat \<Rightarrow> 'n \<Rightarrow> 'n layout_state" where
  "layoutState A images bannerWidth bannerHeight columns gap =
     layout_loop A (columnWidth A bannerWidth columns gap) bannerHeight gap images
       \<lparr>columnHeights = replicate columns gap, items = []\<rparr>"

text \<open>Line 54: \<^verbatim>\<open>return items\<close>. The array of items is all the function returns.\<close>

definition calculateMasonryLayout :: "'n arith \<Rightarrow> 'n ProcessedImage list \<Rightarrow> 'n \<Rightarrow> 'n \<Rightarrow> nat \<Rightarrow> 'n \<Rightarrow> 'n MasonryItem list" where
  "calculateMasonryLayout A images bannerWidth bannerHeight columns gap =
     items (layoutState A images bannerWidth bannerHeight columns gap)"

section \<open>Banner generation: \<^verbatim>\<open>generateBanner\<close> up to the layout\<close>

text \<open>Lines 84-96: the conversion of the configured size to pixels. The literal \<^verbatim>\<open>2.54\<close> is
  the double nearest to it.\<close>

definition toPixels :: "PrintConfig \<Rightarrow> number \<times> number" where
  "toPixels config =
     (let (bannerWidth, bannerHeight) =
        (if cfg_unit config = In
         then (js_mul (cfg_width config) (cfg_dpi config),
               js_mul (cfg_height config) (cfg_dpi config))
         else if cfg_unit config = Cm
         then (js_mul (js_div (cfg_width config) (round_double (254 / 100))) (cfg_dpi config),
               js_mul (js_div (cfg_height config) (round_double (254 / 100))) (cfg_dpi config))
         else (cfg_width config, cfg_height config))
      in (js_round bannerWidth, js_round bannerHeight))"

text \<open>The three \<^verbatim>\<open>throw new Error(...)\<close> of lines 78, 101 and 111, the second with the pixel
  size its message prints, and the RangeError ("Invalid array length") of
  \<^verbatim>\<open>new Array(columns)\<close> in line 23.\<close>

datatype error =
  NoImages
  | DimensionsTooLarge number number
  | InvalidArrayLength
  | NoImagesFit

text \<open>What the drawing stage receives when no error was thrown.\<close>

record banner_plan =
  plan_width :: number
  plan_height :: number
  plan_columns :: nat
  plan_layout :: "number MasonryItem list"

text \<open>Line 107: \<^verbatim>\<open>Math.max(1, Math.min(5, Math.floor(bannerWidth / 400)))\<close>, a number.\<close>

definition layoutColumns :: "number \<Rightarrow> number" where
  "layoutColumns bannerWidth =
     js_max2 (Fin 1) (js_min2 (Fin 5) (js_floor (js_div bannerWidth (Fin 400))))"

text \<open>
  Lines 77-114. The result pairs the values passed to \<^verbatim>\<open>onProgress\<close> so far, in order, with
  the thrown error or the computed plan. The column count of line 107 is NaN when the pixel
  width is NaN, and then \<^verbatim>\<open>new Array(columns)\<close> in line 23 throws. The gap is the default
  value 10 of the parameter. The canvas drawing and encoding that follow line 114 are
  effects of the browser and are not part of the embedding.
\<close>

definition generateBanner :: "number ProcessedImage list \<Rightarrow> PrintConfig \<Rightarrow> nat list \<times> (error + banner_plan)" where
  "generateBanner images config =
     (if length images = 0 then ([], Inl NoImages)
      else
        (let (bannerWidth, bannerHeight) = toPixels config;
             maxDimension = Fin 16000
         in if js_lt maxDimension bannerWidth \<or> js_lt maxDimension bannerHeight
            then ([5], Inl (DimensionsTooLarge bannerWidth bannerHeight))
            else
              (let columns = layoutColumns bannerWidth
               in case array_length columns of
                    None \<Rightarrow> ([5, 10], Inl InvalidArrayLength)
                  | Some n \<Rightarrow>
                      (let layout = calculateMasonryLayout double images bannerWidth bannerHeight n (Fin 10)
                       in if length layout = 0 then ([5, 10], Inl NoImagesFit)
                          else ([5, 10, 20],
                                Inr \<lparr>plan_width = bannerWidth, plan_height = bannerHeight,
                                     plan_columns = n, plan_layout = layout\<rparr>)))))"

section \<open>The rejected count of the specification\<close>

text \<open>
  The specification speaks of the number of rejected images, which the source does not
  compute. The following two definitions follow the specification's words, for comparison
  with what \<open>calculateMasonryLayout\<close> returns: the image at position \<open>k\<close> is rejected when
  its height, added to the filled height of the column selected for it, exceeds
  \<open>bannerHeight - gap\<close>, all in the arithmetic of the program.
\<close>

definition spec_rejectedAt :: "number ProcessedImage list \<Rightarrow> number \<Rightarrow> number \<Rightarrow> nat \<Rightarrow> number \<Rightarrow> nat \<Rightarrow> bool" where
  "spec_rejectedAt images bannerWidth bannerHeight columns gap k =
     (case shortestColumnIndex double
             (columnHeights (layoutState double (take k images) bannerWidth bannerHeight columns gap)) of
        None \<Rightarrow> False
      | Some i \<Rightarrow>
          js_lt (js_sub bannerHeight gap)
            (js_add
              (columnHeights (layoutState double (take k images) bannerWidth bannerHeight columns gap) ! i)
              (itemHeightOf double (columnWidth double bannerWidth columns gap) (images ! k))))"

definition spec_rejectedCount :: "number ProcessedImage list \<Rightarrow> number \<Rightarrow> number \<Rightarrow> nat \<Rightarrow> number \<Rightarrow> nat" where
  "spec_rejectedCount images bannerWidth bannerHeight columns gap =
     length (filter (spec_rejectedAt images bannerWidth bannerHeight columns gap) [0..<length images])"

section \<open>Concrete inputs\<close>

text \<open>Images by their original width and height in pixels, in the arithmetic of the program
  and in exact arithmetic.\<close>

definition image_of :: "rat \<Rightarrow> rat \<Rightarrow> number ProcessedImage" where
  "image_of w h = \<lparr>image_id = ''image'', originalDimensions = \<lparr>dim_width = Fin w, dim_height = Fin h\<rparr>\<rparr>"

definition square_image :: "number ProcessedImage" where
  "square_image = image_of 100 100"

definition upright_image :: "number ProcessedImage" where
  "upright_image = image_of 100 200"

definition vga_image :: "number ProcessedImage" where
  "vga_image = image_of 640 480"

definition square_image_exact :: "rat ProcessedImage" where
  "square_image_exact =
     \<lparr>image_id = ''square'', originalDimensions = \<lparr>dim_width = 100, dim_height = 100\<rparr>\<rparr>"

text \<open>Size configurations: a size in pixels, and a size in inches at a resolution.\<close>

definition pixels :: "number \<Rightarrow> number \<Rightarrow> PrintConfig" where
  "pixels w h = \<lparr>cfg_width = w, cfg_height = h, cfg_unit = Px, cfg_dpi = Fin 300, cfg_quality = Fin 1\<rparr>"

definition inches :: "number \<Rightarrow> number \<Rightarrow> number \<Rightarrow> PrintConfig" where
  "inches w h dpi = \<lparr>cfg_width = w, cfg_height = h, cfg_unit = In, cfg_dpi = dpi, cfg_quality = Fin 1\<rparr>"

section \<open>Properties of the arithmetic, the column selection and the loop\<close>

text \<open>The doubles nearest to 0.1, 2.54, 1160/3 and -1/3; integers of this size are
  doubles.\<close>

lemma round_double_examples:
  "round_double (1 / 10) = Fin (3602879701896397 / 36028797018963968)"
  "round_double (254 / 100) = Fin (2859785763380265 / 1125899906842624)"
  "round_double (1160 / 3) = Fin (6802311937174187 / 17592186044416)"
  "round_double (- 1 / 3) = Fin (- 6004799503160661 / 18014398509481984)"
  "round_double 16000 = Fin 16000"
  by code_simp+

lemma indexOf_Some_iff:
  "indexOf A hs v = Some i \<longleftrightarrow>
     i < length hs \<and> a_eq A (hs ! i) v \<and> (\<forall>j<i. \<not> a_eq A (hs ! j) v)"
proof (induction hs arbitrary: i)
  case Nil
  then show ?case by simp
next
  case (Cons h hs)
  show ?case
  proof (cases "a_eq A h v")
    case True
    then show ?thesis by (cases i) auto
  next
    case False
    show ?thesis
    proof (cases i)
      case 0
      with False show ?thesis by simp
    next
      case (Suc k)
      have "(\<forall>j<Suc k. \<not> a_eq A ((h # hs) ! j) v) \<longleftrightarrow> (\<forall>j<k. \<not> a_eq A (hs ! j) v)"
        using False by (auto simp: less_Suc_eq_0_disj)
      with False Suc Cons.IH [of k] show ?thesis by auto
    qed
  qed
qed

lemma indexOf_member:
  "x \<in> set hs \<Longrightarrow> a_eq A x v \<Longrightarrow> \<exists>i. indexOf A hs v = Some i"
  by (induction hs) auto

lemma layout_loop_append:
  "layout_loop A cw bh g (xs @ ys) st = layout_loop A cw bh g ys (layout_loop A cw bh g xs st)"
  by (induction xs arbitrary: st) simp_all

lemma layoutState_snoc:
  "layoutState A (pre @ [img]) bw bh c g =
     loop_body A (columnWidth A bw c g) bh g (layoutState A pre bw bh c g) img"
  by (simp add: layoutState_def layout_loop_append)

lemma layoutState_split:
  "layoutState A (pre @ img # post) bw bh c g =
     layout_loop A (columnWidth A bw c g) bh g post
       (loop_body A (columnWidth A bw c g) bh g (layoutState A pre bw bh c g) img)"
  by (simp add: layoutState_def layout_loop_append)

lemma layoutState_Nil:
  "layoutState A [] bw bh c g = \<lparr>columnHeights = replicate c g, items = []\<rparr>"
  by (simp add: layoutState_def)

lemma loop_body_cases:
  "loop_body A cw bh g st img = st
   \<or> (\<exists>i. shortestColumnIndex A (columnHeights st) = Some i
        \<and> a_le A (a_add A (columnHeights st ! i) (itemHeightOf A cw img)) (a_sub A bh g)
        \<and> loop_body A cw bh g st img =
          \<lparr>columnHeights =
             (columnHeights st)[i := a_add A (a_add A (columnHeights st ! i) (itemHeightOf A cw img)) g],
           items = items st @
             [\<lparr>item_image = img, item_x = a_add A g (a_mul A (a_of_nat A i) (a_add A cw g)),
               item_y = columnHeights st ! i,
               item_width = cw, item_height = itemHeightOf A cw img\<rparr>]\<rparr>)"
  by (simp add: loop_body_def Let_def split: option.splits)

lemma loop_body_length:
  "length (columnHeights (loop_body A cw bh g st img)) = length (columnHeights st)"
  by (simp add: loop_body_def Let_def split: option.splits)

lemma layout_loop_length:
  "length (columnHeights (layout_loop A cw bh g imgs st)) = length (columnHeights st)"
  by (induction imgs arbitrary: st) (simp_all add: loop_body_length)

lemma layoutState_length:
  "length (columnHeights (layoutState A imgs bw bh c g)) = c"
  by (simp add: layoutState_def layout_loop_length)

lemma loop_body_items:
  "\<exists>its. items (loop_body A cw bh g st img) = items st @ its \<and> subseq (map item_image its) [img]"
  by (simp add: loop_body_def Let_def split: option.splits)

lemma layout_loop_items:
  "\<exists>its. items (layout_loop A cw bh g imgs st) = items st @ its \<and> subseq (map item_image its) imgs"
proof (induction imgs arbitrary: st)
  case Nil
  then show ?case by simp
next
  case (Cons img imgs)
  obtain its1 where 1: "items (loop_body A cw bh g st img) = items st @ its1"
      "subseq (map item_image its1) [img]"
    using loop_body_items [of A cw bh g st img] by auto
  obtain its2 where 2:
      "items (layout_loop A cw bh g imgs (loop_body A cw bh g st img)) =
         items (loop_body A cw bh g st img) @ its2"
      "subseq (map item_image its2) imgs"
    using Cons.IH [of "loop_body A cw bh g st img"] by auto
  have "subseq (map item_image its1 @ map item_image its2) ([img] @ imgs)"
    using 1(2) 2(2) by (rule list_emb_append_mono)
  then show ?case using 1(1) 2(1) by simp
qed

lemma calculateMasonryLayout_subseq:
  "subseq (map item_image (calculateMasonryLayout A images bw bh c g)) images"
  using layout_loop_items [of A "columnWidth A bw c g" bh g images
      "\<lparr>columnHeights = replicate c g, items = []\<rparr>"]
  by (auto simp: calculateMasonryLayout_def layoutState_def)

lemma layout_loop_invariant:
  assumes "P st"
    and "\<And>s img. P s \<Longrightarrow> img \<in> set imgs \<Longrightarrow> P (loop_body A cw bh g s img)"
  shows "P (layout_loop A cw bh g imgs st)"
  using assms
proof (induction imgs arbitrary: st)
  case Nil
  then show ?case by simp
next
  case (Cons img imgs)
  have "P (loop_body A cw bh g st img)" using Cons.prems by simp
  then show ?case using Cons.IH Cons.prems(2) by simp
qed

lemma items_shape:
  "\<forall>it\<in>set (calculateMasonryLayout A images bw bh c g).
     item_image it \<in> set images \<and> item_width it = columnWidth A bw c g
     \<and> item_height it = itemHeightOf A (columnWidth A bw c g) (item_image it)"
  unfolding calculateMasonryLayout_def layoutState_def
proof (rule layout_loop_invariant, goal_cases)
  case 1
  then show ?case by simp
next
  case (2 s img)
  show ?case
    using loop_body_cases [of A "columnWidth A bw c g" bh g s img] 2 by auto
qed

lemma columnWidth_exact:
  "columnWidth exact bannerWidth columns gap
     = (bannerWidth - gap * (of_nat columns + 1)) / of_nat columns"
  by (simp add: columnWidth_def exact_def)

lemma js_le_refl: "a \<noteq> NaN \<Longrightarrow> js_le a a"
  by (simp add: js_le_def)

lemma js_le_trans: "js_le a b \<Longrightarrow> js_le b c \<Longrightarrow> js_le a c"
  by (auto simp: js_le_def)

lemma js_le_total: "a \<noteq> NaN \<Longrightarrow> b \<noteq> NaN \<Longrightarrow> js_le a b \<or> js_le b a"
  by (auto simp: js_le_def)

lemma js_lt_iff: "js_lt a b \<longleftrightarrow> js_le a b \<and> \<not> js_le b a"
  by (auto simp: js_le_def js_lt_def)

lemma js_not_le_iff: "a \<noteq> NaN \<Longrightarrow> b \<noteq> NaN \<Longrightarrow> \<not> js_le a b \<longleftrightarrow> js_lt b a"
  by (auto simp: js_le_def js_lt_def)

lemma js_eq_iff: "js_eq a b \<longleftrightarrow> js_le a b \<and> js_le b a"
  by (auto simp: js_le_def js_eq_def prod_eq_iff)

lemma js_le_not_NaN: "js_le a b \<Longrightarrow> a \<noteq> NaN \<and> b \<noteq> NaN"
  by (simp add: js_le_def)

lemma js_min2_cases:
  "a \<noteq> NaN \<Longrightarrow> b \<noteq> NaN \<Longrightarrow>
     (js_min2 a b = a \<or> js_min2 a b = b) \<and> js_le (js_min2 a b) a \<and> js_le (js_min2 a b) b"
  by (auto simp: js_min2_def js_lt_def js_le_def)

lemma fold_js_min2:
  assumes "NaN \<notin> set hs" and "m \<noteq> NaN"
  shows "fold (\<lambda>x m. js_min2 m x) hs m \<in> set (m # hs)
       \<and> (\<forall>x\<in>set (m # hs). js_le (fold (\<lambda>x m. js_min2 m x) hs m) x)"
  using assms
proof (induction hs arbitrary: m)
  case Nil
  then show ?case by (simp add: js_le_refl)
next
  case (Cons h hs)
  let ?m' = "js_min2 m h"
  have h: "h \<noteq> NaN" "NaN \<notin> set hs" using Cons.prems(1) by auto
  have c: "(?m' = m \<or> ?m' = h) \<and> js_le ?m' m \<and> js_le ?m' h"
    using Cons.prems(2) h(1) by (rule js_min2_cases)
  then have m': "?m' \<noteq> NaN" using Cons.prems(2) h(1) by auto
  have IH: "fold (\<lambda>x m. js_min2 m x) hs ?m' \<in> set (?m' # hs)
       \<and> (\<forall>x\<in>set (?m' # hs). js_le (fold (\<lambda>x m. js_min2 m x) hs ?m') x)"
    using h(2) m' by (rule Cons.IH)
  let ?r = "fold (\<lambda>x m. js_min2 m x) hs ?m'"
  have r: "js_le ?r ?m'" using IH by simp
  have "js_le ?r m" "js_le ?r h" using r c js_le_trans by blast+
  moreover have "?r \<in> set (m # h # hs)" using IH c by auto
  ultimately show ?case using IH by simp
qed

lemma shortestColumnIndex_double:
  assumes "hs \<noteq> []" and "NaN \<notin> set hs"
  shows "\<exists>i<length hs. shortestColumnIndex double hs = Some i
           \<and> (\<forall>j<length hs. js_le (hs ! i) (hs ! j)) \<and> (\<forall>j<i. js_lt (hs ! i) (hs ! j))"
proof -
  obtain h tl where hs: "hs = h # tl" using assms(1) by (cases hs) auto
  let ?m = "fold (\<lambda>x m. js_min2 m x) tl h"
  have nn: "NaN \<notin> set tl" "h \<noteq> NaN" using assms(2) hs by auto
  have m: "?m \<in> set hs" "\<forall>x\<in>set hs. js_le ?m x"
    using fold_js_min2 [OF nn] hs by simp_all
  have mm: "math_min double hs = Some ?m" by (simp add: hs double_def)
  have "?m \<noteq> NaN" using m(1) assms(2) by metis
  then have "js_eq ?m ?m" by (simp add: js_eq_def)
  with m(1) obtain i where "indexOf double hs ?m = Some i"
    using indexOf_member [of ?m hs double ?m] by (auto simp: double_def)
  then have i: "i < length hs" "js_eq (hs ! i) ?m" "\<forall>j<i. \<not> js_eq (hs ! j) ?m"
    by (simp_all add: indexOf_Some_iff double_def)
  have le: "js_le (hs ! i) (hs ! j)" if "j < length hs" for j
  proof -
    have "js_le (hs ! i) ?m" using i(2) by (simp add: js_eq_iff)
    moreover have "js_le ?m (hs ! j)" using m(2) that by simp
    ultimately show ?thesis by (rule js_le_trans)
  qed
  have lt: "js_lt (hs ! i) (hs ! j)" if "j < i" for j
  proof -
    have j: "j < length hs" using that i(1) by simp
    have "\<not> js_eq (hs ! j) ?m" using i(3) that by simp
    moreover have "js_le ?m (hs ! j)" using m(2) j by simp
    ultimately have "\<not> js_le (hs ! j) ?m" by (simp add: js_eq_iff)
    moreover have "js_le (hs ! i) ?m" using i(2) by (simp add: js_eq_iff)
    ultimately have "\<not> js_le (hs ! j) (hs ! i)" using js_le_trans by blast
    then show ?thesis using le [OF j] by (simp add: js_lt_iff)
  qed
  show ?thesis
    using i(1) le lt \<open>indexOf double hs ?m = Some i\<close> mm
    by (auto simp: shortestColumnIndex_def)
qed

lemma round_double_not_NaN: "round_double x \<noteq> NaN"
  by (simp add: round_double_def Let_def)

lemma js_add_not_NaN: "a \<noteq> NaN \<Longrightarrow> is_finite b \<Longrightarrow> js_add a b \<noteq> NaN"
  by (cases b) (auto simp: js_add_def round_double_not_NaN)

lemma js_neg_finite: "is_finite b \<Longrightarrow> is_finite (js_neg b)"
  by (cases b) auto

lemma js_sub_not_NaN: "a \<noteq> NaN \<Longrightarrow> is_finite b \<Longrightarrow> js_sub a b \<noteq> NaN"
  by (simp add: js_sub_def js_add_not_NaN js_neg_finite)

lemma loop_body_no_NaN:
  assumes "NaN \<notin> set (columnHeights s)" and "is_finite g"
  shows "NaN \<notin> set (columnHeights (loop_body double cw bh g s img))"
proof -
  consider (rejected) "loop_body double cw bh g s img = s"
    | (placed) i where
      "a_le double (a_add double (columnHeights s ! i) (itemHeightOf double cw img)) (a_sub double bh g)"
      "columnHeights (loop_body double cw bh g s img) =
         (columnHeights s)[i := a_add double (a_add double (columnHeights s ! i) (itemHeightOf double cw img)) g]"
    using loop_body_cases [of double cw bh g s img] by force
  then show ?thesis
  proof cases
    case rejected
    then show ?thesis using assms by simp
  next
    case (placed i)
    let ?v = "js_add (js_add (columnHeights s ! i) (itemHeightOf double cw img)) g"
    have "js_add (columnHeights s ! i) (itemHeightOf double cw img) \<noteq> NaN"
      using placed(1) js_le_not_NaN by (auto simp: double_def)
    then have v: "?v \<noteq> NaN" using assms(2) by (rule js_add_not_NaN)
    have "set ((columnHeights s)[i := ?v]) \<subseteq> insert ?v (set (columnHeights s))"
      by (rule set_update_subset_insert)
    then show ?thesis using v assms(1) placed(2) by (auto simp: double_def)
  qed
qed

lemma layoutState_no_NaN:
  assumes "is_finite g"
  shows "NaN \<notin> set (columnHeights (layoutState double imgs bw bh c g))"
  unfolding layoutState_def
proof (rule layout_loop_invariant, goal_cases)
  case 1
  then show ?case using assms by (cases g) auto
next
  case (2 s img)
  show ?case using 2(1) assms by (rule loop_body_no_NaN)
qed

lemma layoutState_selects:
  assumes "1 \<le> c" and "is_finite g"
  shows "\<exists>i<c. shortestColumnIndex double (columnHeights (layoutState double imgs bw bh c g)) = Some i
      \<and> (\<forall>j<c. js_le (columnHeights (layoutState double imgs bw bh c g) ! i)
                       (columnHeights (layoutState double imgs bw bh c g) ! j))
      \<and> (\<forall>j<i. js_lt (columnHeights (layoutState double imgs bw bh c g) ! i)
                       (columnHeights (layoutState double imgs bw bh c g) ! j))"
proof -
  let ?hs = "columnHeights (layoutState double imgs bw bh c g)"
  have len: "length ?hs = c" by (rule layoutState_length)
  then have ne: "?hs \<noteq> []" using assms(1) by auto
  have "NaN \<notin> set ?hs" using assms(2) by (rule layoutState_no_NaN)
  with ne show ?thesis using shortestColumnIndex_double [of ?hs] len by simp
qed

lemma round_double_1: "round_double 1 = Fin 1"
  by code_simp

lemma double_of_nat_1: "a_of_nat double 1 = Fin 1"
  by (simp add: double_def round_double_1)

lemma fit_test_iff:
  assumes "y \<noteq> NaN" and "is_finite h" and "bh \<noteq> NaN" and "is_finite g"
  shows "js_le (js_add y h) (js_sub bh g) \<longleftrightarrow> \<not> js_lt (js_sub bh g) (js_add y h)"
proof -
  have "js_add y h \<noteq> NaN" using assms(1,2) by (rule js_add_not_NaN)
  moreover have "js_sub bh g \<noteq> NaN" using assms(3,4) by (rule js_sub_not_NaN)
  ultimately show ?thesis
    using js_not_le_iff [of "js_add y h" "js_sub bh g"] by blast
qed

lemma layoutState_nth_no_NaN:
  assumes "is_finite g" and "i < c"
  shows "columnHeights (layoutState double imgs bw bh c g) ! i \<noteq> NaN"
proof -
  have "NaN \<notin> set (columnHeights (layoutState double imgs bw bh c g))"
    using assms(1) by (rule layoutState_no_NaN)
  moreover have "length (columnHeights (layoutState double imgs bw bh c g)) = c"
    by (rule layoutState_length)
  ultimately show ?thesis using assms(2) by (metis nth_mem)
qed

lemma spec_rejectedAt_snoc:
  "k < length xs \<Longrightarrow> spec_rejectedAt (xs @ [x]) bw bh c g k = spec_rejectedAt xs bw bh c g k"
  by (simp add: spec_rejectedAt_def nth_append cong: option.case_cong)

lemma spec_rejectedCount_snoc:
  "spec_rejectedCount (xs @ [x]) bw bh c g =
     spec_rejectedCount xs bw bh c g + (if spec_rejectedAt (xs @ [x]) bw bh c g (length xs) then 1 else 0)"
proof -
  have "filter (spec_rejectedAt (xs @ [x]) bw bh c g) [0..<length xs]
      = filter (spec_rejectedAt xs bw bh c g) [0..<length xs]"
    by (rule filter_cong) (simp_all add: spec_rejectedAt_snoc)
  then show ?thesis by (simp add: spec_rejectedCount_def)
qed

lemma js_round_exact: "rat_of (js_round (Fin q)) = of_int (round q)"
  by (simp add: round_def)

lemma toPixels_examples:
  "toPixels (inches (Fin 10) (Fin 15) (Fin 300)) = (Fin 3000, Fin 4500)"
  "toPixels (inches (round_double (3 / 100)) (Fin 1) (Fin 150)) = (Fin 5, Fin 150)"
  "toPixels (inches (round_double (41 / 100)) (Fin 1) (Fin 150)) = (Fin 61, Fin 150)"
  "toPixels (pixels (Fin (6001 / 2)) (Fin 2000)) = (Fin 3001, Fin 2000)"
  "toPixels (pixels (Fin 20000) (Fin 20000)) = (Fin 20000, Fin 20000)"
  by code_simp+

lemma js_div_400_not_NaN: "bw \<noteq> NaN \<Longrightarrow> js_div bw (Fin 400) \<noteq> NaN"
  by (cases bw) (auto simp: js_div_def signed_inf_def signed_zero_def round_double_not_NaN)

lemma js_floor_shape:
  "d \<noteq> NaN \<Longrightarrow> js_floor d = PosInf \<or> js_floor d = NegInf \<or> js_floor d = NegZero
     \<or> (\<exists>n. js_floor d = Fin (of_int n))"
  by (cases d) auto

lemma clamp_columns:
  assumes "f = PosInf \<or> f = NegInf \<or> f = NegZero \<or> (\<exists>n. f = Fin (of_int n))"
  shows "\<exists>n. array_length (js_max2 (Fin 1) (js_min2 (Fin 5) f)) = Some n \<and> 1 \<le> n \<and> n \<le> 5"
proof -
  consider "f = PosInf" | "f = NegInf" | "f = NegZero" | n where "f = Fin (of_int n)"
    using assms by blast
  then show ?thesis
  proof cases
    case 4
    consider "n \<le> 1" | "1 < n" "n < 5" | "5 \<le> n" by linarith
    then show ?thesis
    proof cases
      case 1
      then show ?thesis using 4 by (auto simp: js_max2_def js_min2_def js_lt_def)
    next
      case 2
      then have "array_length (Fin (of_int n)) = Some (nat n)" by simp
      moreover have "js_max2 (Fin 1) (js_min2 (Fin 5) f) = Fin (of_int n)"
        using 2 4 by (auto simp: js_max2_def js_min2_def js_lt_def)
      ultimately show ?thesis using 2 by auto
    next
      case 3
      then show ?thesis using 4 by (auto simp: js_max2_def js_min2_def js_lt_def)
    qed
  qed (auto simp: js_max2_def js_min2_def js_lt_def)
qed

lemma layoutColumns_valid_iff:
  "array_length (layoutColumns bw) = None \<longleftrightarrow> bw = NaN"
proof (cases "bw = NaN")
  case True
  then show ?thesis
    by (simp add: layoutColumns_def js_div_def js_min2_def js_max2_def)
next
  case False
  then have "js_div bw (Fin 400) \<noteq> NaN" by (rule js_div_400_not_NaN)
  then have "\<exists>n. array_length (layoutColumns bw) = Some n \<and> 1 \<le> n \<and> n \<le> 5"
    unfolding layoutColumns_def by (intro clamp_columns js_floor_shape)
  then show ?thesis using False by auto
qed

lemma scenario_tie:
  "shortestColumnIndex double
     (columnHeights (layoutState double [image_of 3 1, image_of 3 4, image_of 9 16, image_of 9 7]
        (Fin 900) (Fin 2000) 2 (Fin 10))) = Some 1"
  "columnHeights (layoutState double [image_of 3 1, image_of 3 4, image_of 9 16, image_of 9 7]
        (Fin 900) (Fin 2000) 2 (Fin 10))
     = [Fin (8341628216060587 / 8796093022208), Fin (4170814108030293 / 4398046511104)]"
  by code_simp+

lemma scenario_five_squares_exact:
  "calculateMasonryLayout exact
       [square_image_exact, square_image_exact, square_image_exact, square_image_exact, square_image_exact]
       1000 1000 3 10
     = [\<lparr>item_image = square_image_exact, item_x = 10, item_y = 10, item_width = 320, item_height = 320\<rparr>,
        \<lparr>item_image = square_image_exact, item_x = 340, item_y = 10, item_width = 320, item_height = 320\<rparr>,
        \<lparr>item_image = square_image_exact, item_x = 670, item_y = 10, item_width = 320, item_height = 320\<rparr>,
        \<lparr>item_image = square_image_exact, item_x = 10, item_y = 340, item_width = 320, item_height = 320\<rparr>,
        \<lparr>item_image = square_image_exact, item_x = 340, item_y = 340, item_width = 320, item_height = 320\<rparr>]"
  by code_simp

lemma scenario_positive:
  "\<forall>im\<in>set [square_image_exact, square_image_exact, square_image_exact, square_image_exact, square_image_exact].
     0 < dim_width (originalDimensions im) \<and> 0 < dim_height (originalDimensions im)"
  by (simp add: square_image_exact_def)

lemma scenario_vga:
  "shortestColumnIndex double
     (columnHeights (layoutState double [] (Fin 1200) (Fin 310) 3 (Fin 10))) = Some 0"
  "js_lt (js_sub (Fin 310) (Fin 10))
     (js_add (columnHeights (layoutState double [] (Fin 1200) (Fin 310) 3 (Fin 10)) ! 0)
        (itemHeightOf double (columnWidth double (Fin 1200) 3 (Fin 10)) vga_image))"
  "itemHeightOf double (columnWidth double (Fin 1200) 3 (Fin 10)) vga_image = Fin (290 + 1 / 17592186044416)"
  "calculateMasonryLayout double [vga_image] (Fin 1200) (Fin 310) 3 (Fin 10) = []"
  by code_simp+

section \<open>The layout algorithm\<close>

text \<open>
  Claim C1. All numbers are the doubles the program holds and all operations its
  operations. Let the columns be at least one and the gap finite, and let \<open>img\<close> be any image
  of the input, after the images \<open>pre\<close> and before the images \<open>post\<close>. The column width is
  \<open>(bannerWidth - gap * (columns + 1)) / columns\<close>; before the first image every column is
  filled to \<open>gap\<close> and there is no item; when the loop reaches \<open>img\<close> it selects a column \<open>i\<close>
  whose filled height is minimal and strictly below that of every column to its left; if the
  image fits (line 40) the state gains exactly one item for \<open>img\<close>, at
  \<open>x = gap + i * (columnWidth + gap)\<close> and at \<open>y\<close> the filled height of column \<open>i\<close>, and otherwise
  stays as it is; the loop goes on with the images after \<open>img\<close>, and the images of the
  returned items are a subsequence of the input, in input order.
\<close>

theorem layout_shortest_column_first:
  assumes "1 \<le> columns" and "is_finite gap" and "images = pre @ img # post"
  shows "columnWidth double bannerWidth columns gap
           = js_div (js_sub bannerWidth (js_mul gap (js_add (round_double (of_nat columns)) (Fin 1))))
               (round_double (of_nat columns))
    \<and> layoutState double [] bannerWidth bannerHeight columns gap
        = \<lparr>columnHeights = replicate columns gap, items = []\<rparr>
    \<and> (\<exists>i<columns.
          shortestColumnIndex double
            (columnHeights (layoutState double pre bannerWidth bannerHeight columns gap)) = Some i
        \<and> (\<forall>j<columns. js_le
              (columnHeights (layoutState double pre bannerWidth bannerHeight columns gap) ! i)
              (columnHeights (layoutState double pre bannerWidth bannerHeight columns gap) ! j))
        \<and> (\<forall>j<i. js_lt
              (columnHeights (layoutState double pre bannerWidth bannerHeight columns gap) ! i)
              (columnHeights (layoutState double pre bannerWidth bannerHeight columns gap) ! j))
        \<and> layoutState double (pre @ [img]) bannerWidth bannerHeight columns gap
            = (if js_le
                   (js_add (columnHeights (layoutState double pre bannerWidth bannerHeight columns gap) ! i)
                      (itemHeightOf double (columnWidth double bannerWidth columns gap) img))
                   (js_sub bannerHeight gap)
               then \<lparr>columnHeights =
                       (columnHeights (layoutState double pre bannerWidth bannerHeight columns gap))
                         [i := js_add
                            (js_add (columnHeights (layoutState double pre bannerWidth bannerHeight columns gap) ! i)
                               (itemHeightOf double (columnWidth double bannerWidth columns gap) img))
                            gap],
                     items = items (layoutState double pre bannerWidth bannerHeight columns gap) @
                       [\<lparr>item_image = img,
                         item_x = js_add gap (js_mul (round_double (of_nat i))
                                    (js_add (columnWidth double bannerWidth columns gap) gap)),
                         item_y = columnHeights (layoutState double pre bannerWidth bannerHeight columns gap) ! i,
                         item_width = columnWidth double bannerWidth columns gap,
                         item_height = itemHeightOf double (columnWidth double bannerWidth columns gap) img\<rparr>]\<rparr>
               else layoutState double pre bannerWidth bannerHeight columns gap))
    \<and> layoutState double images bannerWidth bannerHeight columns gap
        = layout_loop double (columnWidth double bannerWidth columns gap) bannerHeight gap post
            (layoutState double (pre @ [img]) bannerWidth bannerHeight columns gap)
    \<and> subseq (map item_image (calculateMasonryLayout double images bannerWidth bannerHeight columns gap)) images"
proof -
  let ?st = "layoutState double pre bannerWidth bannerHeight columns gap"
  let ?hs = "columnHeights ?st"
  obtain i where i: "i < columns" "shortestColumnIndex double ?hs = Some i"
    and sel: "\<forall>j<columns. js_le (?hs ! i) (?hs ! j)" "\<forall>j<i. js_lt (?hs ! i) (?hs ! j)"
    using layoutState_selects [OF assms(1,2), of pre bannerWidth bannerHeight] by blast
  have cw: "columnWidth double bannerWidth columns gap
           = js_div (js_sub bannerWidth (js_mul gap (js_add (round_double (of_nat columns)) (Fin 1))))
               (round_double (of_nat columns))"
    using double_of_nat_1 by (simp add: columnWidth_def double_def)
  have step: "layoutState double (pre @ [img]) bannerWidth bannerHeight columns gap
            = (if js_le
                   (js_add (?hs ! i) (itemHeightOf double (columnWidth double bannerWidth columns gap) img))
                   (js_sub bannerHeight gap)
               then \<lparr>columnHeights =
                       ?hs [i := js_add
                            (js_add (?hs ! i) (itemHeightOf double (columnWidth double bannerWidth columns gap) img))
                            gap],
                     items = items ?st @
                       [\<lparr>item_image = img,
                         item_x = js_add gap (js_mul (round_double (of_nat i))
                                    (js_add (columnWidth double bannerWidth columns gap) gap)),
                         item_y = ?hs ! i,
                         item_width = columnWidth double bannerWidth columns gap,
                         item_height = itemHeightOf double (columnWidth double bannerWidth columns gap) img\<rparr>]\<rparr>
               else ?st)"
    using i(2) by (simp add: layoutState_snoc loop_body_def Let_def) (simp add: double_def)
  have run: "layoutState double images bannerWidth bannerHeight columns gap
        = layout_loop double (columnWidth double bannerWidth columns gap) bannerHeight gap post
            (layoutState double (pre @ [img]) bannerWidth bannerHeight columns gap)"
    using assms(3) by (simp add: layoutState_split layoutState_snoc)
  have sub: "subseq (map item_image (calculateMasonryLayout double images bannerWidth bannerHeight columns gap)) images"
    by (rule calculateMasonryLayout_subseq)
  have ex: "\<exists>i<columns.
          shortestColumnIndex double ?hs = Some i
        \<and> (\<forall>j<columns. js_le (?hs ! i) (?hs ! j))
        \<and> (\<forall>j<i. js_lt (?hs ! i) (?hs ! j))
        \<and> layoutState double (pre @ [img]) bannerWidth bannerHeight columns gap
            = (if js_le
                   (js_add (?hs ! i) (itemHeightOf double (columnWidth double bannerWidth columns gap) img))
                   (js_sub bannerHeight gap)
               then \<lparr>columnHeights =
                       ?hs [i := js_add
                            (js_add (?hs ! i) (itemHeightOf double (columnWidth double bannerWidth columns gap) img))
                            gap],
                     items = items ?st @
                       [\<lparr>item_image = img,
                         item_x = js_add gap (js_mul (round_double (of_nat i))
                                    (js_add (columnWidth double bannerWidth columns gap) gap)),
                         item_y = ?hs ! i,
                         item_width = columnWidth double bannerWidth columns gap,
                         item_height = itemHeightOf double (columnWidth double bannerWidth columns gap) img\<rparr>]\<rparr>
               else ?st)"
    using i sel step by blast
  show ?thesis
    using cw ex run sub layoutState_Nil [of double bannerWidth bannerHeight columns gap] by blast
qed

text \<open>
  The theorem at the fifth of five images on a banner of 900 by 2000 with two columns. The
  four images before it have the aspect ratios 3:1, 3:4, 9:16 and 9:7. Both columns are
  then filled to 2845/3 in exact arithmetic; as doubles the right column is filled to
  948.3333333333333 and the left one to 948.3333333333334, and the right column is selected.
\<close>

theorem layout_shortest_column_first_witness:
  "shortestColumnIndex double
     (columnHeights (layoutState double [image_of 3 1, image_of 3 4, image_of 9 16, image_of 9 7]
        (Fin 900) (Fin 2000) 2 (Fin 10))) = Some 1
   \<and> js_lt
       (columnHeights (layoutState double [image_of 3 1, image_of 3 4, image_of 9 16, image_of 9 7]
          (Fin 900) (Fin 2000) 2 (Fin 10)) ! 1)
       (columnHeights (layoutState double [image_of 3 1, image_of 3 4, image_of 9 16, image_of 9 7]
          (Fin 900) (Fin 2000) 2 (Fin 10)) ! 0)"
proof -
  have h1: "1 \<le> (2::nat)" and h2: "is_finite (Fin 10)" by simp_all
  have h3: "[image_of 3 1, image_of 3 4, image_of 9 16, image_of 9 7, image_of 1 1]
      = [image_of 3 1, image_of 3 4, image_of 9 16, image_of 9 7] @ image_of 1 1 # []"
    by simp
  note T = layout_shortest_column_first [OF h1 h2 h3, of "Fin 900" "Fin 2000"]
  then obtain i where i: "shortestColumnIndex double
     (columnHeights (layoutState double [image_of 3 1, image_of 3 4, image_of 9 16, image_of 9 7]
        (Fin 900) (Fin 2000) 2 (Fin 10))) = Some i"
    and lt: "\<forall>j<i. js_lt
       (columnHeights (layoutState double [image_of 3 1, image_of 3 4, image_of 9 16, image_of 9 7]
          (Fin 900) (Fin 2000) 2 (Fin 10)) ! i)
       (columnHeights (layoutState double [image_of 3 1, image_of 3 4, image_of 9 16, image_of 9 7]
          (Fin 900) (Fin 2000) 2 (Fin 10)) ! j)"
    by blast
  have "i = 1" using i scenario_tie(1) by simp
  then show ?thesis using i lt by simp
qed

text \<open>
  Claim C2. Under the same preconditions, with \<open>i\<close> the column selected for \<open>img\<close>, \<open>y\<close> its
  filled height and the placed height \<open>columnWidth / (originalWidth / originalHeight)\<close>, all
  as doubles: if \<open>y + height > bannerHeight - gap\<close> the state after \<open>img\<close> is the state before it
  (no item, no column height changed) and the loop continues with the following images only;
  if \<open>y + height \<le> bannerHeight - gap\<close> the state after \<open>img\<close> has one more item, at \<open>(x, y)\<close>
  with the column width and the placed height, and column \<open>i\<close> is filled to
  \<open>y + height + gap\<close>. One of the two cases applies whenever the canvas height is a number and
  the placed height is finite.
\<close>

theorem layout_reject_or_place:
  assumes "1 \<le> columns" and "is_finite gap" and "images = pre @ img # post"
  shows "\<exists>i<columns.
      shortestColumnIndex double
        (columnHeights (layoutState double pre bannerWidth bannerHeight columns gap)) = Some i
    \<and> itemHeightOf double (columnWidth double bannerWidth columns gap) img
        = js_div (columnWidth double bannerWidth columns gap)
            (js_div (dim_width (originalDimensions img)) (dim_height (originalDimensions img)))
    \<and> (js_lt (js_sub bannerHeight gap)
          (js_add (columnHeights (layoutState double pre bannerWidth bannerHeight columns gap) ! i)
             (itemHeightOf double (columnWidth double bannerWidth columns gap) img))
        \<longrightarrow> layoutState double (pre @ [img]) bannerWidth bannerHeight columns gap
              = layoutState double pre bannerWidth bannerHeight columns gap
          \<and> layoutState double images bannerWidth bannerHeight columns gap
              = layout_loop double (columnWidth double bannerWidth columns gap) bannerHeight gap post
                  (layoutState double pre bannerWidth bannerHeight columns gap))
    \<and> (js_le
          (js_add (columnHeights (layoutState double pre bannerWidth bannerHeight columns gap) ! i)
             (itemHeightOf double (columnWidth double bannerWidth columns gap) img))
          (js_sub bannerHeight gap)
        \<longrightarrow> layoutState double (pre @ [img]) bannerWidth bannerHeight columns gap
              = \<lparr>columnHeights =
                   (columnHeights (layoutState double pre bannerWidth bannerHeight columns gap))
                     [i := js_add
                        (js_add (columnHeights (layoutState double pre bannerWidth bannerHeight columns gap) ! i)
                           (itemHeightOf double (columnWidth double bannerWidth columns gap) img))
                        gap],
                 items = items (layoutState double pre bannerWidth bannerHeight columns gap) @
                   [\<lparr>item_image = img,
                     item_x = js_add gap (js_mul (round_double (of_nat i))
                                (js_add (columnWidth double bannerWidth columns gap) gap)),
                     item_y = columnHeights (layoutState double pre bannerWidth bannerHeight columns gap) ! i,
                     item_width = columnWidth double bannerWidth columns gap,
                     item_height = itemHeightOf double (columnWidth double bannerWidth columns gap) img\<rparr>]\<rparr>)
    \<and> (bannerHeight \<noteq> NaN
        \<and> is_finite (itemHeightOf double (columnWidth double bannerWidth columns gap) img)
        \<longrightarrow> (js_le
              (js_add (columnHeights (layoutState double pre bannerWidth bannerHeight columns gap) ! i)
                 (itemHeightOf double (columnWidth double bannerWidth columns gap) img))
              (js_sub bannerHeight gap)
            \<longleftrightarrow> \<not> js_lt (js_sub bannerHeight gap)
              (js_add (columnHeights (layoutState double pre bannerWidth bannerHeight columns gap) ! i)
                 (itemHeightOf double (columnWidth double bannerWidth columns gap) img))))"
proof -
  let ?st = "layoutState double pre bannerWidth bannerHeight columns gap"
  let ?hs = "columnHeights ?st"
  let ?cw = "columnWidth double bannerWidth columns gap"
  let ?h = "itemHeightOf double ?cw img"
  obtain i where i: "i < columns" "shortestColumnIndex double ?hs = Some i"
    using layoutState_selects [OF assms(1,2), of pre bannerWidth bannerHeight] by blast
  have hdef: "?h = js_div ?cw (js_div (dim_width (originalDimensions img)) (dim_height (originalDimensions img)))"
    by (simp add: itemHeightOf_def double_def)
  have run: "layoutState double images bannerWidth bannerHeight columns gap
        = layout_loop double ?cw bannerHeight gap post
            (layoutState double (pre @ [img]) bannerWidth bannerHeight columns gap)"
    using assms(3) by (simp add: layoutState_split layoutState_snoc)
  have rej: "layoutState double (pre @ [img]) bannerWidth bannerHeight columns gap = ?st
          \<and> layoutState double images bannerWidth bannerHeight columns gap
              = layout_loop double ?cw bannerHeight gap post ?st"
    if "js_lt (js_sub bannerHeight gap) (js_add (?hs ! i) ?h)"
  proof -
    have "\<not> js_le (js_add (?hs ! i) ?h) (js_sub bannerHeight gap)"
      using that by (simp add: js_lt_iff)
    then have "layoutState double (pre @ [img]) bannerWidth bannerHeight columns gap = ?st"
      using i(2) by (simp add: layoutState_snoc loop_body_def Let_def double_def)
    then show ?thesis using run by simp
  qed
  have plc: "layoutState double (pre @ [img]) bannerWidth bannerHeight columns gap
              = \<lparr>columnHeights = ?hs [i := js_add (js_add (?hs ! i) ?h) gap],
                 items = items ?st @
                   [\<lparr>item_image = img,
                     item_x = js_add gap (js_mul (round_double (of_nat i)) (js_add ?cw gap)),
                     item_y = ?hs ! i,
                     item_width = ?cw,
                     item_height = ?h\<rparr>]\<rparr>"
    if "js_le (js_add (?hs ! i) ?h) (js_sub bannerHeight gap)"
    using that i(2) by (simp add: layoutState_snoc loop_body_def Let_def) (simp add: double_def)
  have dich: "js_le (js_add (?hs ! i) ?h) (js_sub bannerHeight gap)
            \<longleftrightarrow> \<not> js_lt (js_sub bannerHeight gap) (js_add (?hs ! i) ?h)"
    if "bannerHeight \<noteq> NaN \<and> is_finite ?h"
  proof -
    have "?hs ! i \<noteq> NaN" using assms(2) i(1) by (rule layoutState_nth_no_NaN)
    then show ?thesis using that assms(2) by (simp add: fit_test_iff)
  qed
  show ?thesis
    using i hdef rej plc dich by blast
qed

text \<open>
  The theorem at one image of 640 by 480 on a banner of 1200 by 310 with three columns and a
  gap of 10. The column width is the double nearest to 1160/3 and the placed height is
  290.00000000000006, so the image is rejected, although in exact arithmetic the sum would
  be 300.
\<close>

theorem layout_reject_or_place_witness:
  "is_finite (Fin 10)
   \<and> layoutState double [vga_image] (Fin 1200) (Fin 310) 3 (Fin 10)
       = layoutState double [] (Fin 1200) (Fin 310) 3 (Fin 10)"
proof -
  have h1: "1 \<le> (3::nat)" and h2: "is_finite (Fin 10)" by simp_all
  have h3: "[vga_image] = [] @ vga_image # []" by simp
  note T = layout_reject_or_place [OF h1 h2 h3, of "Fin 1200" "Fin 310"]
  then obtain i where i: "shortestColumnIndex double
        (columnHeights (layoutState double [] (Fin 1200) (Fin 310) 3 (Fin 10))) = Some i"
    and rej: "js_lt (js_sub (Fin 310) (Fin 10))
          (js_add (columnHeights (layoutState double [] (Fin 1200) (Fin 310) 3 (Fin 10)) ! i)
             (itemHeightOf double (columnWidth double (Fin 1200) 3 (Fin 10)) vga_image))
        \<longrightarrow> layoutState double ([] @ [vga_image]) (Fin 1200) (Fin 310) 3 (Fin 10)
              = layoutState double [] (Fin 1200) (Fin 310) 3 (Fin 10)"
    by blast
  have "i = 0" using i scenario_vga(1) by simp
  then show ?thesis using rej scenario_vga(2) h2 by simp
qed

text \<open>
  Claim C3, as amended. \<open>calculateMasonryLayout\<close> returns the placed items and nothing else.
  With at least one column, a finite gap, a canvas height that is a number and images whose
  placed height is finite, the number of returned items and the number of images whose
  height, as a double, added to the filled height of the selected column exceeds
  \<open>bannerHeight - gap\<close> add up to the number of input images.
\<close>

theorem layout_placed_plus_rejected:
  assumes "1 \<le> columns" and "is_finite gap" and "bannerHeight \<noteq> NaN"
    and "\<forall>im\<in>set images. is_finite (itemHeightOf double (columnWidth double bannerWidth columns gap) im)"
  shows "length (calculateMasonryLayout double images bannerWidth bannerHeight columns gap)
           + spec_rejectedCount images bannerWidth bannerHeight columns gap
         = length images"
  using assms(4)
proof (induction images rule: rev_induct)
  case Nil
  then show ?case by (simp add: calculateMasonryLayout_def layoutState_def spec_rejectedCount_def)
next
  case (snoc x xs)
  let ?st = "layoutState double xs bannerWidth bannerHeight columns gap"
  let ?h = "itemHeightOf double (columnWidth double bannerWidth columns gap) x"
  have IH: "length (items ?st) + spec_rejectedCount xs bannerWidth bannerHeight columns gap = length xs"
    using snoc by (simp add: calculateMasonryLayout_def)
  obtain i where i: "i < columns" "shortestColumnIndex double (columnHeights ?st) = Some i"
    using layoutState_selects [OF assms(1,2), of xs bannerWidth bannerHeight] by blast
  have "columnHeights ?st ! i \<noteq> NaN" using assms(2) i(1) by (rule layoutState_nth_no_NaN)
  moreover have "is_finite ?h" using snoc.prems by simp
  ultimately have fit: "js_le (js_add (columnHeights ?st ! i) ?h) (js_sub bannerHeight gap)
      \<longleftrightarrow> \<not> js_lt (js_sub bannerHeight gap) (js_add (columnHeights ?st ! i) ?h)"
    using assms(2,3) by (simp add: fit_test_iff)
  have rej: "spec_rejectedAt (xs @ [x]) bannerWidth bannerHeight columns gap (length xs)
      \<longleftrightarrow> js_lt (js_sub bannerHeight gap) (js_add (columnHeights ?st ! i) ?h)"
    using i(2) by (simp add: spec_rejectedAt_def)
  have len: "length (items (layoutState double (xs @ [x]) bannerWidth bannerHeight columns gap))
      = length (items ?st)
        + (if js_le (js_add (columnHeights ?st ! i) ?h) (js_sub bannerHeight gap) then 1 else 0)"
    using i(2) by (simp add: layoutState_snoc loop_body_def Let_def double_def)
  show ?case
    using IH fit rej len
    by (simp add: calculateMasonryLayout_def spec_rejectedCount_snoc)
qed

text \<open>
  The theorem at the image of 640 by 480 on the banner of 1200 by 310: nothing is placed and
  one image is rejected.
\<close>

theorem layout_placed_plus_rejected_witness:
  "is_finite (itemHeightOf double (columnWidth double (Fin 1200) 3 (Fin 10)) vga_image)
   \<and> length (calculateMasonryLayout double [vga_image] (Fin 1200) (Fin 310) 3 (Fin 10))
       + spec_rejectedCount [vga_image] (Fin 1200) (Fin 310) 3 (Fin 10) = 1"
proof -
  have h1: "1 \<le> (3::nat)" and h2: "is_finite (Fin 10)" and h3: "Fin 310 \<noteq> NaN" by simp_all
  have fin: "is_finite (itemHeightOf double (columnWidth double (Fin 1200) 3 (Fin 10)) vga_image)"
    by (simp add: scenario_vga(3))
  then have h4: "\<forall>im\<in>set [vga_image].
      is_finite (itemHeightOf double (columnWidth double (Fin 1200) 3 (Fin 10)) im)"
    by simp
  show ?thesis
    using layout_placed_plus_rejected [OF h1 h2 h3 h4] fin by simp
qed

text \<open>
  Claim C3 as stated fails: the returned value carries no count. One rejected image and two
  rejected images give the same returned value, the empty list.
\<close>

theorem layout_returns_no_count:
  "calculateMasonryLayout double [upright_image] (Fin 500) (Fin 50) 1 (Fin 10)
     = calculateMasonryLayout double [upright_image, upright_image] (Fin 500) (Fin 50) 1 (Fin 10)
   \<and> spec_rejectedCount [upright_image] (Fin 500) (Fin 50) 1 (Fin 10) = 1
   \<and> spec_rejectedCount [upright_image, upright_image] (Fin 500) (Fin 50) 1 (Fin 10) = 2"
  by code_simp

section \<open>Geometry of the placed items\<close>

text \<open>
  Claim C7 does not hold of the program. A banner of 5 by 100 pixels with one image of 100 by
  100 has one column of width \<open>5 - 2 * 10 = - 15\<close>. The fit test of line 40 accepts the
  negative height, and the item is placed at \<open>x = 10\<close>, right of the banner, with its other
  corner at \<open>- 5\<close>.
\<close>

theorem narrow_banner_item_outside:
  "generateBanner [square_image] (pixels (Fin 5) (Fin 100))
     = ([5, 10, 20],
        Inr \<lparr>plan_width = Fin 5, plan_height = Fin 100, plan_columns = 1,
             plan_layout = [\<lparr>item_image = square_image, item_x = Fin 10, item_y = Fin 10,
                              item_width = Fin (- 15), item_height = Fin (- 15)\<rparr>]\<rparr>)
   \<and> js_lt (Fin 5) (Fin 10)
   \<and> js_add (Fin 10) (Fin (- 15)) = Fin (- 5)
   \<and> js_lt (Fin (- 5)) (Fin 0)"
  by code_simp

text \<open>
  Claim C8 does not hold of the program, by the same defect. On a banner of 10 by 100 pixels
  the column width is \<open>- 10\<close>; each item leaves the filled height of the column at 10, and
  three square images are placed on the same rectangle.
\<close>

theorem narrow_banner_items_coincide:
  "generateBanner [square_image, square_image, square_image] (pixels (Fin 10) (Fin 100))
     = ([5, 10, 20],
        Inr \<lparr>plan_width = Fin 10, plan_height = Fin 100, plan_columns = 1,
             plan_layout =
               [\<lparr>item_image = square_image, item_x = Fin 10, item_y = Fin 10,
                  item_width = Fin (- 10), item_height = Fin (- 10)\<rparr>,
                \<lparr>item_image = square_image, item_x = Fin 10, item_y = Fin 10,
                  item_width = Fin (- 10), item_height = Fin (- 10)\<rparr>,
                \<lparr>item_image = square_image, item_x = Fin 10, item_y = Fin 10,
                  item_width = Fin (- 10), item_height = Fin (- 10)\<rparr>]\<rparr>)"
  by code_simp

text \<open>
  Claim C9. In exact arithmetic, with positive original dimensions and a column width other
  than zero, the width of every returned item divided by its height equals the original
  width of its image divided by the original height.
\<close>

theorem layout_preserves_aspect_ratio:
  assumes "\<forall>im\<in>set images. 0 < dim_width (originalDimensions im) \<and> 0 < dim_height (originalDimensions im)"
    and "columnWidth exact bannerWidth columns gap \<noteq> 0"
    and "it \<in> set (calculateMasonryLayout exact images bannerWidth bannerHeight columns gap)"
  shows "item_width it / item_height it
           = dim_width (originalDimensions (item_image it)) / dim_height (originalDimensions (item_image it))"
proof -
  have sh: "item_image it \<in> set images" "item_width it = columnWidth exact bannerWidth columns gap"
      "item_height it = itemHeightOf exact (columnWidth exact bannerWidth columns gap) (item_image it)"
    using items_shape [of exact images bannerWidth bannerHeight columns gap] assms(3) by auto
  have pos: "0 < dim_width (originalDimensions (item_image it))"
      "0 < dim_height (originalDimensions (item_image it))"
    using assms(1) sh(1) by auto
  show ?thesis
    using pos assms(2) by (simp add: sh(2,3) itemHeightOf_def exact_def)
qed

text \<open>
  The theorem at the fifth item of the first scenario of the specification: five square
  images on a canvas of 1000 by 1000 with three columns and a gap of 10.
\<close>

theorem layout_preserves_aspect_ratio_witness:
  "columnWidth exact 1000 3 10 \<noteq> 0
   \<and> \<lparr>item_image = square_image_exact, item_x = 340, item_y = 340, item_width = 320, item_height = 320\<rparr>
       \<in> set (calculateMasonryLayout exact
           [square_image_exact, square_image_exact, square_image_exact, square_image_exact, square_image_exact]
           1000 1000 3 10)
   \<and> (320::rat) / 320
       = dim_width (originalDimensions square_image_exact) / dim_height (originalDimensions square_image_exact)"
proof -
  have h2: "columnWidth exact 1000 3 10 \<noteq> 0" by (simp add: columnWidth_exact)
  have h3: "\<lparr>item_image = square_image_exact, item_x = 340, item_y = 340, item_width = 320, item_height = 320\<rparr>
       \<in> set (calculateMasonryLayout exact
           [square_image_exact, square_image_exact, square_image_exact, square_image_exact, square_image_exact]
           1000 1000 3 10)"
    by (simp add: scenario_five_squares_exact)
  show ?thesis
    using layout_preserves_aspect_ratio [OF scenario_positive h2 h3] h2 h3 by simp
qed

section \<open>Unit conversion and the checks of banner generation\<close>

text \<open>
  Claim C6. With the operations of the program: the pixel size is \<open>Math.round width\<close>,
  \<open>Math.round height\<close> for pixels, whatever the resolution; \<open>Math.round (width * dpi)\<close>,
  \<open>Math.round (height * dpi)\<close> for inches; and \<open>Math.round (width / 2.54 * dpi)\<close>,
  \<open>Math.round (height / 2.54 * dpi)\<close> for centimetres. \<open>Math.round\<close> is the outermost
  operation and the only rounding to an integer; for pixels the result is the exact
  \<open>round\<close> of the configured size.
\<close>

theorem toPixels_by_unit:
  "toPixels config =
     (case cfg_unit config of
        Px \<Rightarrow> (js_round (cfg_width config), js_round (cfg_height config))
      | In \<Rightarrow> (js_round (js_mul (cfg_width config) (cfg_dpi config)),
               js_round (js_mul (cfg_height config) (cfg_dpi config)))
      | Cm \<Rightarrow> (js_round (js_mul (js_div (cfg_width config) (round_double (254 / 100))) (cfg_dpi config)),
               js_round (js_mul (js_div (cfg_height config) (round_double (254 / 100))) (cfg_dpi config))))
   \<and> (cfg_unit config = Px \<longrightarrow> toPixels (config\<lparr>cfg_dpi := d\<rparr>) = toPixels config)
   \<and> (cfg_unit config = Px \<and> cfg_width config = Fin w \<and> cfg_height config = Fin h
        \<longrightarrow> rat_of (fst (toPixels config)) = of_int (round w)
          \<and> rat_of (snd (toPixels config)) = of_int (round h))"
  by (cases "cfg_unit config") (simp_all add: toPixels_def js_round_exact del: js_round.simps)

text \<open>
  The theorem at a width of 0.03 inches and 150 dpi, where the product of the doubles is 4.5
  and the pixel width 5, and at 3000.5 by 2000 pixels with another resolution.
\<close>

theorem toPixels_by_unit_witness:
  "js_round (js_mul (round_double (3 / 100)) (Fin 150)) = Fin 5
   \<and> cfg_unit (pixels (Fin (6001 / 2)) (Fin 2000)) = Px
   \<and> toPixels ((pixels (Fin (6001 / 2)) (Fin 2000))\<lparr>cfg_dpi := Fin 72\<rparr>) = (Fin 3001, Fin 2000)
   \<and> round (6001 / 2 :: rat) = 3001"
proof -
  have px: "cfg_unit (pixels (Fin (6001 / 2)) (Fin 2000)) = Px"
    "cfg_width (pixels (Fin (6001 / 2)) (Fin 2000)) = Fin (6001 / 2)"
    "cfg_height (pixels (Fin (6001 / 2)) (Fin 2000)) = Fin 2000"
    by (simp_all add: pixels_def)
  have "js_round (js_mul (round_double (3 / 100)) (Fin 150)) = Fin 5"
    using toPixels_by_unit [of "inches (round_double (3 / 100)) (Fin 1) (Fin 150)" "Fin 72" 0 0]
      toPixels_examples(2)
    by (simp add: inches_def)
  moreover have "toPixels ((pixels (Fin (6001 / 2)) (Fin 2000))\<lparr>cfg_dpi := Fin 72\<rparr>) = (Fin 3001, Fin 2000)
      \<and> round (6001 / 2 :: rat) = 3001"
    using toPixels_by_unit [of "pixels (Fin (6001 / 2)) (Fin 2000)" "Fin 72" "6001 / 2" 2000]
      px toPixels_examples(4)
    by simp
  ultimately show ?thesis using px(1) by simp
qed

text \<open>
  Claim C10. With an empty image list banner generation throws \<open>NoImages\<close> before the first
  progress report, hence before the unit conversion and the layout.
\<close>

theorem generateBanner_no_images:
  "generateBanner [] config = ([], Inl NoImages)"
  by (simp add: generateBanner_def)

text \<open>
  Claim C5, as amended. For a non-empty image list: if the converted width or height exceeds
  16000, banner generation throws \<open>DimensionsTooLarge\<close> after the progress report 5 only,
  before the report 10 that precedes the layout; if neither exceeds 16000 it does not throw
  that error.
\<close>

theorem generateBanner_too_large:
  assumes "images \<noteq> []"
  shows "(js_lt (Fin 16000) (fst (toPixels config)) \<or> js_lt (Fin 16000) (snd (toPixels config))
           \<longrightarrow> generateBanner images config
                 = ([5], Inl (DimensionsTooLarge (fst (toPixels config)) (snd (toPixels config)))))
       \<and> (\<not> js_lt (Fin 16000) (fst (toPixels config)) \<and> \<not> js_lt (Fin 16000) (snd (toPixels config))
           \<longrightarrow> (\<forall>w h. snd (generateBanner images config) \<noteq> Inl (DimensionsTooLarge w h)))"
  using assms by (auto simp: generateBanner_def Let_def split: prod.splits option.splits)

text \<open>
  The theorem at 20000 by 20000 pixels, which is refused, and at 3000 by 4500, which is not.
\<close>

theorem generateBanner_too_large_witness:
  "[square_image] \<noteq> []
   \<and> generateBanner [square_image] (pixels (Fin 20000) (Fin 20000))
       = ([5], Inl (DimensionsTooLarge (Fin 20000) (Fin 20000)))
   \<and> snd (generateBanner [square_image] (inches (Fin 10) (Fin 15) (Fin 300)))
       \<noteq> Inl (DimensionsTooLarge (Fin 3000) (Fin 4500))"
proof -
  have ne: "[square_image] \<noteq> []" by simp
  have cmp: "js_lt (Fin 16000) (Fin 20000)" "\<not> js_lt (Fin 16000) (Fin 3000)"
    "\<not> js_lt (Fin 16000) (Fin 4500)"
    by (simp_all add: js_lt_def)
  show ?thesis
    using generateBanner_too_large [OF ne, of "pixels (Fin 20000) (Fin 20000)"]
      generateBanner_too_large [OF ne, of "inches (Fin 10) (Fin 15) (Fin 300)"]
      toPixels_examples(1,5) cmp
    by simp
qed

text \<open>
  Claim C5 as stated fails for an empty image list: with 20000 by 20000 pixels the error is
  \<open>NoImages\<close>, thrown before the size is converted.
\<close>

theorem generateBanner_empty_list_first:
  "toPixels (pixels (Fin 20000) (Fin 20000)) = (Fin 20000, Fin 20000)
   \<and> js_lt (Fin 16000) (Fin 20000)
   \<and> generateBanner [] (pixels (Fin 20000) (Fin 20000)) = ([], Inl NoImages)"
  using toPixels_examples(5) by (simp add: generateBanner_def js_lt_def)

text \<open>
  Claim C4, as amended. The unit conversion checks nothing and returns a pixel size for
  every width, height and resolution. Up to and including the layout, banner generation
  fails in exactly four cases: the image list is empty; a converted dimension exceeds 16000;
  the converted width is NaN (the array of column heights cannot be allocated); the layout
  places no image.
\<close>

theorem generateBanner_failures:
  "snd (generateBanner images config) = Inl e \<longleftrightarrow>
     (images = [] \<and> e = NoImages)
   \<or> (images \<noteq> []
      \<and> (js_lt (Fin 16000) (fst (toPixels config)) \<or> js_lt (Fin 16000) (snd (toPixels config)))
      \<and> e = DimensionsTooLarge (fst (toPixels config)) (snd (toPixels config)))
   \<or> (images \<noteq> []
      \<and> \<not> js_lt (Fin 16000) (snd (toPixels config))
      \<and> fst (toPixels config) = NaN
      \<and> e = InvalidArrayLength)
   \<or> (images \<noteq> []
      \<and> \<not> js_lt (Fin 16000) (fst (toPixels config)) \<and> \<not> js_lt (Fin 16000) (snd (toPixels config))
      \<and> (\<exists>n. array_length (layoutColumns (fst (toPixels config))) = Some n
            \<and> calculateMasonryLayout double images (fst (toPixels config)) (snd (toPixels config)) n (Fin 10) = [])
      \<and> e = NoImagesFit)"
proof -
  have nan: "\<not> js_lt (Fin 16000) NaN" by (simp add: js_lt_def)
  show ?thesis
    using layoutColumns_valid_iff [of "fst (toPixels config)"] nan
    by (auto simp: generateBanner_def Let_def split: prod.splits option.splits)
qed

text \<open>
  The theorem at an empty image list, at a resolution of NaN with a size in inches, and at
  the image of 640 by 480 on 1200 by 310 pixels.
\<close>

theorem generateBanner_failures_witness:
  "snd (generateBanner [] (pixels (Fin 0) (Fin 100))) = Inl NoImages
   \<and> snd (generateBanner [square_image] (inches (Fin 10) (Fin 15) NaN)) = Inl InvalidArrayLength
   \<and> snd (generateBanner [vga_image] (pixels (Fin 1200) (Fin 310))) = Inl NoImagesFit"
proof -
  have 1: "toPixels (inches (Fin 10) (Fin 15) NaN) = (NaN, NaN)" by code_simp
  have 2: "toPixels (pixels (Fin 1200) (Fin 310)) = (Fin 1200, Fin 310)" by code_simp
  have 3: "array_length (layoutColumns (Fin 1200)) = Some 3" by code_simp
  note 4 = scenario_vga(4)
  have c: "\<not> js_lt (Fin 16000) NaN" "\<not> js_lt (Fin 16000) (Fin 1200)" "\<not> js_lt (Fin 16000) (Fin 310)"
    by (simp_all add: js_lt_def)
  show ?thesis
    using generateBanner_failures [of "[]" "pixels (Fin 0) (Fin 100)" NoImages]
      generateBanner_failures [of "[square_image]" "inches (Fin 10) (Fin 15) NaN" InvalidArrayLength]
      generateBanner_failures [of "[vga_image]" "pixels (Fin 1200) (Fin 310)" NoImagesFit]
      1 2 3 4 c
    by simp
qed

text \<open>
  Claim C4 as stated fails: a width of zero, and a resolution of zero with a size in inches,
  are converted to pixels and the generation goes on to the drawing stage.
\<close>

theorem generateBanner_accepts_nonpositive_size:
  "js_le (cfg_width (pixels (Fin 0) (Fin 100))) (Fin 0)
   \<and> toPixels (pixels (Fin 0) (Fin 100)) = (Fin 0, Fin 100)
   \<and> generateBanner [square_image] (pixels (Fin 0) (Fin 100))
       = ([5, 10, 20],
          Inr \<lparr>plan_width = Fin 0, plan_height = Fin 100, plan_columns = 1,
               plan_layout = [\<lparr>item_image = square_image, item_x = Fin 10, item_y = Fin 10,
                                item_width = Fin (- 20), item_height = Fin (- 20)\<rparr>]\<rparr>)
   \<and> cfg_unit (inches (Fin 10) (Fin 15) (Fin 0)) \<noteq> Px
   \<and> js_le (cfg_dpi (inches (Fin 10) (Fin 15) (Fin 0))) (Fin 0)
   \<and> toPixels (inches (Fin 10) (Fin 15) (Fin 0)) = (Fin 0, Fin 0)
   \<and> generateBanner [square_image] (inches (Fin 10) (Fin 15) (Fin 0))
       = ([5, 10, 20],
          Inr \<lparr>plan_width = Fin 0, plan_height = Fin 0, plan_columns = 1,
               plan_layout = [\<lparr>item_image = square_image, item_x = Fin 10, item_y = Fin 10,
                                item_width = Fin (- 20), item_height = Fin (- 20)\<rparr>]\<rparr>)"
  by code_simp

end
